theory Spec2Isabelle
  imports Main
begin

section \<open>Strings and JSON values\<close>

text \<open>
  Strings are ASCII strings. \<open>trim\<close> removes the ASCII white space that
  \<^verbatim>\<open>String.prototype.trim\<close> removes, \<open>toLowerCase\<close> maps the letters A to Z.
\<close>

definition isWhiteSpace :: "char \<Rightarrow> bool" where
  "isWhiteSpace c = (c \<in> set [CHR 0x09, CHR 0x0A, CHR 0x0B, CHR 0x0C, CHR 0x0D, CHR 0x20])"

definition trim :: "string \<Rightarrow> string" where
  "trim s = rev (dropWhile isWhiteSpace (rev (dropWhile isWhiteSpace s)))"

definition lowerChar :: "char \<Rightarrow> char" where
  "lowerChar c =
     (case map_of (zip ''ABCDEFGHIJKLMNOPQRSTUVWXYZ'' ''abcdefghijklmnopqrstuvwxyz'') c of
        None \<Rightarrow> c
      | Some l \<Rightarrow> l)"

definition toLowerCase :: "string \<Rightarrow> string" where
  "toLowerCase s = map lowerChar s"

definition startsWith :: "string \<Rightarrow> string \<Rightarrow> bool" where
  "startsWith s p = (take (length p) s = p)"

text \<open>\<^verbatim>\<open>s.slice(b, e)\<close> for indices \<open>0 \<le> b \<le> e\<close>; both ends are clamped to the length.\<close>

definition slice :: "string \<Rightarrow> nat \<Rightarrow> nat \<Rightarrow> string" where
  "slice s b e = take (e - b) (drop b s)"

text \<open>\<^verbatim>\<open>segments.join(sep)\<close>.\<close>

fun join :: "string \<Rightarrow> string list \<Rightarrow> string" where
  "join sep [] = []"
| "join sep [x] = x"
| "join sep (x # y # ys) = x @ sep @ join sep (y # ys)"

text \<open>The bodies that \<^verbatim>\<open>res.json\<close> sends, and a response as status and body.\<close>

datatype json =
    JNull
  | JBool bool
  | JString string
  | JArray "json list"
  | JObject "(string \<times> json) list"

type_synonym response = "nat \<times> json"

fun json_field :: "json \<Rightarrow> string \<Rightarrow> json option" where
  "json_field (JObject kvs) k = map_of kvs k"
| "json_field _ k = None"

text \<open>A JavaScript string value is falsy when it is undefined or empty.\<close>

definition truthy :: "string option \<Rightarrow> bool" where
  "truthy v = (case v of None \<Rightarrow> False | Some s \<Rightarrow> s \<noteq> [])"

section \<open>The persistent store\<close>

text \<open>
  A profile is an object whose four fields may each be absent (\<open>None\<close> is
  \<^verbatim>\<open>undefined\<close>); \<open>photos = None\<close> also stands for a value that is not
  an array. The store holds the two dictionaries \<^verbatim>\<open>byUsername\<close> and
  \<^verbatim>\<open>byShortId\<close>, modelled as maps over their own keys; \<open>js_assign\<close> and
  \<open>inherited\<close> below say where \<^verbatim>\<open>Object.prototype\<close> shows.
\<close>

record profile =
  username :: "string option"
  blessing :: "string option"
  photos :: "string list option"
  shortId :: "string option"

definition emptyObject :: profile where
  "emptyObject = \<lparr>username = None, blessing = None, photos = None, shortId = None\<rparr>"

record db =
  byUsername :: "string \<rightharpoonup> profile"
  byShortId :: "string \<rightharpoonup> string"

definition emptyDb :: db where
  "emptyDb = \<lparr>byUsername = Map.empty, byShortId = Map.empty\<rparr>"

text \<open>
  The assignment \<^verbatim>\<open>obj[k] = v\<close> on a dictionary. It makes \<open>k\<close> an own key, except
  for \<^verbatim>\<open>__proto__\<close> on an object that has no such own key: there the assignment
  runs the setter inherited from \<^verbatim>\<open>Object.prototype\<close>, which replaces the
  prototype (for an object \<open>v\<close>) or does nothing (for a string \<open>v\<close>); the object gets
  no own key, and \<^verbatim>\<open>JSON.stringify\<close> writes none.
\<close>

definition js_assign :: "(string \<rightharpoonup> 'v) \<Rightarrow> string \<Rightarrow> 'v \<Rightarrow> (string \<rightharpoonup> 'v)" where
  "js_assign obj k v = (if k = ''__proto__'' \<and> obj k = None then obj else obj(k \<mapsto> v))"

text \<open>
  The names every object inherits from \<^verbatim>\<open>Object.prototype\<close>: reading one of them
  from a dictionary that has no such own key yields the inherited member, a truthy
  value that has neither \<^verbatim>\<open>photos\<close> nor \<^verbatim>\<open>shortId\<close>.
\<close>

definition inherited :: "string \<Rightarrow> bool" where
  "inherited k =
     (k \<in> set [''constructor'', ''__defineGetter__'', ''__defineSetter__'', ''hasOwnProperty'',
                ''__lookupGetter__'', ''__lookupSetter__'', ''isPrototypeOf'',
                ''propertyIsEnumerable'', ''toString'', ''valueOf'', ''__proto__'',
                ''toLocaleString''])"

text \<open>
  The backing file \<^verbatim>\<open>data/users.json\<close>: it is missing (\<open>None\<close>), or it holds
  text that \<^verbatim>\<open>JSON.parse\<close> rejects (\<open>Garbage\<close>), or it holds the JSON text
  of a store (\<open>Text\<close>), which is what \<^verbatim>\<open>JSON.stringify\<close> writes.
\<close>

datatype file_text = Garbage string | Text db

type_synonym db_file = "file_text option"

datatype js_error =
    MulterError string
  | Error string
  | SyntaxError string
  | SystemError string

fun readFileSync :: "db_file \<Rightarrow> js_error + file_text" where
  "readFileSync None = Inl (SystemError ''ENOENT'')"
| "readFileSync (Some raw) = Inr raw"

fun JSON_parse :: "file_text \<Rightarrow> js_error + db" where
  "JSON_parse (Garbage s) = Inl (SyntaxError s)"
| "JSON_parse (Text d) = Inr d"

definition JSON_stringify :: "db \<Rightarrow> file_text" where
  "JSON_stringify d = Text d"

text \<open>
  \<^verbatim>\<open>try { return JSON.parse(fs.readFileSync(DB_FILE)) } catch { return {byUsername: {}, byShortId: {}} }\<close>:
  \<open>Inl\<close> would be an exception that reaches the caller.
\<close>

definition loadDb :: "db_file \<Rightarrow> js_error + db" where
  "loadDb f =
     (case (case readFileSync f of Inl e \<Rightarrow> Inl e | Inr raw \<Rightarrow> JSON_parse raw) of
        Inl e \<Rightarrow> Inr emptyDb
      | Inr d \<Rightarrow> Inr d)"

text \<open>
  \<^verbatim>\<open>saveDb\<close> overwrites the file; the result is the new state of the file.
  Writing is taken to succeed.
\<close>

definition saveDb :: "db \<Rightarrow> db_file" where
  "saveDb d = Some (JSON_stringify d)"

section \<open>The short-id generator\<close>

text \<open>
  One outcome of \<^verbatim>\<open>Math.random()\<close> is given by the base-36 digits that
  \<^verbatim>\<open>toString(36)\<close> prints after \<^verbatim>\<open>0.\<close> (each digit taken modulo 36);
  the empty list is the outcome 0, printed as \<^verbatim>\<open>0\<close>.
\<close>

type_synonym random = "nat list"

definition base36_digits :: string where
  "base36_digits = ''0123456789abcdefghijklmnopqrstuvwxyz''"

definition digit36 :: "nat \<Rightarrow> char" where
  "digit36 d = base36_digits ! (d mod 36)"

definition toString36 :: "random \<Rightarrow> string" where
  "toString36 ds = (if ds = [] then ''0'' else ''0.'' @ map digit36 ds)"

definition generateShortId :: "random \<Rightarrow> string" where
  "generateShortId r = slice (toString36 r) 2 8"

text \<open>
  \<^verbatim>\<open>do { shortId = generateShortId() } while (byShortId[shortId])\<close>, run on the
  outcomes the randomness source yields; \<open>None\<close> when every outcome supplied collides,
  that is, the loop has not ended.
\<close>

fun generate_loop :: "(string \<rightharpoonup> string) \<Rightarrow> random list \<Rightarrow> string option" where
  "generate_loop ids [] = None"
| "generate_loop ids (r # rs) =
     (let sid = generateShortId r
      in if truthy (ids sid) then generate_loop ids rs else Some sid)"

section \<open>Uploads\<close>

text \<open>
  A path is the list of its segments. A file of a multipart request carries its field
  name, its declared content type and \<open>path\<close>, the location at which the disk storage
  writes it. The storage names the file itself (time stamp, random number, extension),
  so this location is never the backing file.
\<close>

type_synonym path = "string list"

record multer_file =
  fieldname :: string
  originalname :: string
  mimetype :: "string option"
  path :: path

definition fileFilter :: "multer_file \<Rightarrow> js_error + bool" where
  "fileFilter f =
     (if (case mimetype f of None \<Rightarrow> False | Some m \<Rightarrow> m \<noteq> [] \<and> startsWith m ''image/'')
      then Inr True
      else Inl (Error ''Only image uploads are allowed''))"

text \<open>
  \<^verbatim>\<open>upload.array('photos', 20)\<close>: the files are taken in order; a file of another
  field, or one more than the count left, is a \<^verbatim>\<open>MulterError\<close>; then the filter
  decides; the first error ends the request.
\<close>

fun upload_files :: "nat \<Rightarrow> multer_file list \<Rightarrow> js_error + multer_file list" where
  "upload_files left [] = Inr []"
| "upload_files left (f # fs) =
     (if fieldname f \<noteq> ''photos'' \<or> left = 0 then Inl (MulterError ''LIMIT_UNEXPECTED_FILE'')
      else (case fileFilter f of
              Inl e \<Rightarrow> Inl e
            | Inr incl \<Rightarrow>
                (case upload_files (left - 1) fs of
                   Inl e \<Rightarrow> Inl e
                 | Inr accepted \<Rightarrow> Inr (if incl then f # accepted else accepted))))"

text \<open>
  Both writing routes take \<^verbatim>\<open>req.params.username\<close>. The request of
  \<^verbatim>\<open>POST /api/config/:username\<close> adds the blessing field and the files;
  \<open>files = None\<close> is a request that is not multipart, which the upload middleware
  passes on untouched.
\<close>

record request =
  params_username :: string

record config_request = request +
  body_blessing :: "string option"
  files :: "multer_file list option"

definition upload_array :: "config_request \<Rightarrow> js_error + config_request" where
  "upload_array req =
     (case files req of
        None \<Rightarrow> Inr req
      | Some parts \<Rightarrow>
          (case upload_files 20 parts of
             Inl e \<Rightarrow> Inl e
           | Inr accepted \<Rightarrow> Inr (req\<lparr>files := Some accepted\<rparr>)))"

section \<open>The error-handling middleware\<close>

fun message :: "js_error \<Rightarrow> string" where
  "message (MulterError code) = (if code = ''LIMIT_UNEXPECTED_FILE'' then ''Unexpected field'' else code)"
| "message (Error m) = m"
| "message (SyntaxError m) = m"
| "message (SystemError m) = m"

fun isMulterError :: "js_error \<Rightarrow> bool" where
  "isMulterError (MulterError code) = True"
| "isMulterError _ = False"

definition error_middleware :: "js_error \<Rightarrow> response" where
  "error_middleware err =
     (if isMulterError err \<or> message err = ''Only image uploads are allowed''
      then (400, JObject [(''error'', JString ''Only image uploads are allowed'')])
      else (500, JObject [(''error'', JString ''Internal server error'')]))"

section \<open>POST /api/config/:username\<close>

text \<open>
  \<^verbatim>\<open>path.relative(ROOT_DIR, file.path)\<close> on absolute paths, and the URL path
  \<^verbatim>\<open>'/' + relPath.split(path.sep).join('/')\<close> pushed for an uploaded file.
\<close>

fun path_relative :: "path \<Rightarrow> path \<Rightarrow> path" where
  "path_relative (a # as) (b # bs) =
     (if a = b then path_relative as bs else replicate (length (a # as)) ''..'' @ (b # bs))"
| "path_relative as bs = replicate (length as) ''..'' @ bs"

definition urlPath :: "path \<Rightarrow> multer_file \<Rightarrow> string" where
  "urlPath root f = ''/'' @ join ''/'' (path_relative root (path f))"

text \<open>
  The handler, after the upload middleware. The result is \<open>None\<close> when the generation
  loop has not ended, \<open>Inl\<close> for an exception thrown, and otherwise the response with
  the new state of the backing file. An inherited member read as
  \<^verbatim>\<open>db.byUsername[username]\<close> has no photos and no short id, as \<^verbatim>\<open>{}\<close> has;
  a generated id, of at most 6 characters, names no inherited member.
\<close>

definition config_handler ::
  "path \<Rightarrow> config_request \<Rightarrow> random list \<Rightarrow> db_file \<Rightarrow> (js_error + response \<times> db_file) option" where
  "config_handler root req rs f =
     (let usernameRaw = trim (params_username req);
          uname = toLowerCase usernameRaw
      in if uname = [] then Some (Inr ((400, JObject [(''error'', JString ''Username is required'')]), f))
         else
           let bless = trim (case body_blessing req of None \<Rightarrow> [] | Some b \<Rightarrow> b)
           in case loadDb f of
                Inl e \<Rightarrow> Some (Inl e)
              | Inr d \<Rightarrow>
                  let existing = (case byUsername d uname of None \<Rightarrow> emptyObject | Some p \<Rightarrow> p);
                      photos0 = (case photos existing of Some ps \<Rightarrow> ps | None \<Rightarrow> []);
                      photos1 = (case files req of
                                   Some fs \<Rightarrow> foldl (\<lambda>ps fl. ps @ [urlPath root fl]) photos0 fs
                                 | None \<Rightarrow> photos0)
                  in case (if truthy (shortId existing) then shortId existing
                           else generate_loop (byShortId d) rs) of
                       None \<Rightarrow> None
                     | Some sid \<Rightarrow>
                         let d' = d\<lparr>byUsername := js_assign (byUsername d) uname
                                       \<lparr>username = Some uname, blessing = Some bless,
                                        photos = Some photos1, shortId = Some sid\<rparr>,
                                     byShortId := js_assign (byShortId d) sid uname\<rparr>
                         in Some (Inr ((200, JObject
                              [(''ok'', JBool True),
                               (''username'', JString uname),
                               (''blessing'', JString bless),
                               (''photos'', JArray (map JString photos1)),
                               (''shortId'', JString sid),
                               (''shortUrl'', JString (''/u/'' @ sid))]), saveDb d')))"

text \<open>The route: upload middleware, handler, and the error middleware for what they throw.\<close>

definition post_config ::
  "path \<Rightarrow> config_request \<Rightarrow> random list \<Rightarrow> db_file \<Rightarrow> (response \<times> db_file) option" where
  "post_config root req rs f =
     (case upload_array req of
        Inl e \<Rightarrow> Some (error_middleware e, f)
      | Inr req' \<Rightarrow>
          (case config_handler root req' rs f of
             None \<Rightarrow> None
           | Some (Inl e) \<Rightarrow> Some (error_middleware e, f)
           | Some (Inr out) \<Rightarrow> Some out))"

section \<open>POST /api/delete-photo/:username\<close>

text \<open>\<^verbatim>\<open>xs.indexOf(x)\<close> and \<^verbatim>\<open>xs.splice(i, n)\<close> for an index \<open>i \<ge> 0\<close>.\<close>

fun indexOf :: "'a list \<Rightarrow> 'a \<Rightarrow> int" where
  "indexOf [] x = - 1"
| "indexOf (y # ys) x =
     (if y = x then 0 else (let i = indexOf ys x in if i = - 1 then - 1 else i + 1))"

definition array_splice :: "'a list \<Rightarrow> nat \<Rightarrow> nat \<Rightarrow> 'a list" where
  "array_splice xs i n = take i xs @ drop (i + n) xs"

record delete_request = request +
  body_photoUrl :: "string option"

text \<open>
  \<^verbatim>\<open>path.join(dir, s)\<close> on POSIX paths (case-sensitive, no links): the segments
  of \<open>s\<close> are appended to those of the absolute path \<open>dir\<close>; an empty segment and
  \<^verbatim>\<open>.\<close> are dropped, and \<^verbatim>\<open>..\<close> removes the segment before it (none at
  the root).
\<close>

fun split_slash :: "string \<Rightarrow> string list" where
  "split_slash [] = [[]]"
| "split_slash (c # cs) =
     (if c = CHR ''/'' then [] # split_slash cs
      else (case split_slash cs of [] \<Rightarrow> [[c]] | seg # segs \<Rightarrow> (c # seg) # segs))"

definition normalize_step :: "path \<Rightarrow> string \<Rightarrow> path" where
  "normalize_step acc seg =
     (if seg = [] \<or> seg = ''.'' then acc
      else if seg = ''..'' then butlast acc
      else acc @ [seg])"

definition path_join :: "path \<Rightarrow> string \<Rightarrow> path" where
  "path_join dir s = foldl normalize_step dir (split_slash s)"

text \<open>
  \<^verbatim>\<open>DATA_DIR = path.join(ROOT_DIR, 'data')\<close> and
  \<^verbatim>\<open>DB_FILE = path.join(DATA_DIR, 'users.json')\<close>.
\<close>

definition DB_FILE :: "path \<Rightarrow> path" where
  "DB_FILE root = path_join (path_join root ''data'') ''users.json''"

text \<open>
  The file that the handler removes after it has saved the store:
  \<^verbatim>\<open>cleanPath\<close> is the URL without its leading slash, and
  \<^verbatim>\<open>filePath = path.join(ROOT_DIR, cleanPath)\<close>. \<open>unlinks_db\<close> says that
  \<^verbatim>\<open>filePath\<close> is the backing file. A path that ends in a slash names a directory
  and no file exists under it.
\<close>

definition cleanPath :: "string \<Rightarrow> string" where
  "cleanPath photoUrl = (if startsWith photoUrl ''/'' then drop 1 photoUrl else photoUrl)"

definition unlinks_db :: "path \<Rightarrow> string \<Rightarrow> bool" where
  "unlinks_db root photoUrl =
     (cleanPath photoUrl \<noteq> [] \<and> last (cleanPath photoUrl) \<noteq> CHR ''/'' \<and>
      path_join root (cleanPath photoUrl) = DB_FILE root)"

text \<open>
  The handler. After the save, the file that the URL names is removed inside
  \<^verbatim>\<open>try\<close>/\<^verbatim>\<open>catch\<close> if it exists; removing an existing file is taken to
  succeed. The backing file exists then, so when the URL names it, it is removed and
  the file is missing afterwards. Any other file removed is not part of the store.
  A username that is not an own key but names an inherited member yields that member,
  which is truthy and has no \<^verbatim>\<open>photos\<close> array.
\<close>

definition delete_handler ::
  "path \<Rightarrow> delete_request \<Rightarrow> db_file \<Rightarrow> js_error + response \<times> db_file" where
  "delete_handler root req f =
     (let uname = toLowerCase (trim (params_username req))
      in if uname = [] then
           Inr ((400, JObject [(''ok'', JBool False), (''error'', JString ''Username is required'')]), f)
         else if \<not> truthy (body_photoUrl req) then
           Inr ((400, JObject [(''ok'', JBool False), (''error'', JString ''Photo URL is required'')]), f)
         else
           let photoUrl = the (body_photoUrl req)
           in case loadDb f of
                Inl e \<Rightarrow> Inl e
              | Inr d \<Rightarrow>
                  (case byUsername d uname of
                     None \<Rightarrow>
                       (if inherited uname then
                          Inr ((400, JObject [(''ok'', JBool False), (''error'', JString ''No photos found'')]), f)
                        else
                          Inr ((404, JObject [(''ok'', JBool False), (''error'', JString ''User not found'')]), f))
                   | Some user \<Rightarrow>
                       (case photos user of
                          None \<Rightarrow>
                            Inr ((400, JObject [(''ok'', JBool False), (''error'', JString ''No photos found'')]), f)
                        | Some ps \<Rightarrow>
                            let photoIndex = indexOf ps photoUrl
                            in if photoIndex = - 1 then
                                 Inr ((404, JObject [(''ok'', JBool False),
                                        (''error'', JString ''Photo not found in user data'')]), f)
                               else
                                 let user' = user\<lparr>photos := Some (array_splice ps (nat photoIndex) 1)\<rparr>;
                                     d' = d\<lparr>byUsername := (byUsername d)(uname \<mapsto> user')\<rparr>;
                                     saved = saveDb d';
                                     f' = (if unlinks_db root photoUrl then None else saved)
                                 in Inr ((200, JObject [(''ok'', JBool True),
                                           (''message'', JString ''Photo deleted successfully'')]),
                                         f'))))"

definition delete_photo :: "path \<Rightarrow> delete_request \<Rightarrow> db_file \<Rightarrow> response \<times> db_file" where
  "delete_photo root req f =
     (case delete_handler root req f of
        Inl e \<Rightarrow> (error_middleware e, f)
      | Inr out \<Rightarrow> out)"

section \<open>Store states reachable through the API\<close>

text \<open>
  The service starts without a backing file; every request to one of the two writing
  endpoints takes the file from one state to the next. The reading endpoints leave it
  as it is.
\<close>

inductive reachable :: "db_file \<Rightarrow> bool" where
  start: "reachable None"
| config: "reachable f \<Longrightarrow> post_config root req rs f = Some (resp, f') \<Longrightarrow> reachable f'"
| delete: "reachable f \<Longrightarrow> delete_photo root dreq f = (resp, f') \<Longrightarrow> reachable f'"

section \<open>Notions for stating the properties\<close>

text \<open>
  The username a request names, after \<^verbatim>\<open>trim\<close> and \<^verbatim>\<open>toLowerCase\<close>; the
  photo sequence and the short id a store holds for a username before a request; the
  files of a request.
\<close>

definition normalized :: "'a request_scheme \<Rightarrow> string" where
  "normalized req = toLowerCase (trim (params_username req))"

definition prior_photos :: "db \<Rightarrow> string \<Rightarrow> string list" where
  "prior_photos d u =
     (case byUsername d u of
        None \<Rightarrow> []
      | Some p \<Rightarrow> (case photos p of None \<Rightarrow> [] | Some ps \<Rightarrow> ps))"

definition uploaded :: "config_request \<Rightarrow> multer_file list" where
  "uploaded req = (case files req of None \<Rightarrow> [] | Some fs \<Rightarrow> fs)"

definition prior_shortId :: "db \<Rightarrow> string \<Rightarrow> string option" where
  "prior_shortId d u = (case byUsername d u of None \<Rightarrow> None | Some p \<Rightarrow> shortId p)"

text \<open>
  What the update handler does once the username is accepted: the short id it settles
  on (\<open>None\<close> while the loop has not ended), the store it writes and the body it sends.
\<close>

definition chosen_shortId :: "db \<Rightarrow> string \<Rightarrow> random list \<Rightarrow> string option" where
  "chosen_shortId d u rs =
     (if truthy (prior_shortId d u) then prior_shortId d u else generate_loop (byShortId d) rs)"

definition written :: "db \<Rightarrow> string \<Rightarrow> string \<Rightarrow> string list \<Rightarrow> string \<Rightarrow> db" where
  "written d u b ps sid =
     d\<lparr>byUsername := js_assign (byUsername d) u
          \<lparr>username = Some u, blessing = Some b, photos = Some ps, shortId = Some sid\<rparr>,
       byShortId := js_assign (byShortId d) sid u\<rparr>"

definition ok_body :: "string \<Rightarrow> string \<Rightarrow> string list \<Rightarrow> string \<Rightarrow> json" where
  "ok_body u b ps sid =
     JObject [(''ok'', JBool True), (''username'', JString u), (''blessing'', JString b),
              (''photos'', JArray (map JString ps)), (''shortId'', JString sid),
              (''shortUrl'', JString (''/u/'' @ sid))]"


text \<open>
  Bidirectional consistency: every profile that has a short id is the one its entry in
  \<^verbatim>\<open>byShortId\<close> names. Uniqueness: no two profiles hold the same non-empty
  short id. \<open>names_nonempty\<close>: no profile is stored under the empty username and no
  short id belongs to it.
\<close>

definition consistent :: "db \<Rightarrow> bool" where
  "consistent d =
     (\<forall>u p s. byUsername d u = Some p \<longrightarrow> shortId p = Some s \<longrightarrow> byShortId d s = Some u)"

definition unique_shortIds :: "db \<Rightarrow> bool" where
  "unique_shortIds d =
     (\<forall>u v p q s. byUsername d u = Some p \<longrightarrow> byUsername d v = Some q \<longrightarrow>
        shortId p = Some s \<longrightarrow> shortId q = Some s \<longrightarrow> s \<noteq> [] \<longrightarrow> u = v)"

definition names_nonempty :: "db \<Rightarrow> bool" where
  "names_nonempty d = (byUsername d [] = None \<and> (\<forall>s u. byShortId d s = Some u \<longrightarrow> u \<noteq> []))"

section \<open>Example requests and stores\<close>

text \<open>
  The service root, three uploaded files (two images and a text file) and four update
  requests.
\<close>

definition root0 :: path where
  "root0 = [''srv'', ''tree'']"

definition photo1 :: multer_file where
  "photo1 = \<lparr>fieldname = ''photos'', originalname = ''star.png'', mimetype = Some ''image/png'',
             path = [''srv'', ''tree'', ''uploads'', ''photos'', ''alice'', ''1-7.png'']\<rparr>"

definition photo2 :: multer_file where
  "photo2 = \<lparr>fieldname = ''photos'', originalname = ''snow.jpg'', mimetype = Some ''image/jpeg'',
             path = [''srv'', ''tree'', ''uploads'', ''photos'', ''alice'', ''2-9.jpg'']\<rparr>"

definition note1 :: multer_file where
  "note1 = \<lparr>fieldname = ''photos'', originalname = ''list.txt'', mimetype = Some ''text/plain'',
            path = [''srv'', ''tree'', ''uploads'', ''photos'', ''alice'', ''3-4.txt'']\<rparr>"

definition first_request :: config_request where
  "first_request = \<lparr>params_username = ''Alice '', body_blessing = Some ''hello'', files = Some [photo1]\<rparr>"

definition second_request :: config_request where
  "second_request = \<lparr>params_username = ''alice'', body_blessing = Some ''merry'', files = Some [photo2]\<rparr>"

definition bad_request :: config_request where
  "bad_request = \<lparr>params_username = ''alice'', body_blessing = Some ''merry'', files = Some [photo2, note1]\<rparr>"

definition bob_request :: config_request where
  "bob_request = \<lparr>params_username = ''bob'', body_blessing = None, files = None\<rparr>"

text \<open>
  The stores after the first update of \<^verbatim>\<open>alice\<close>, after her second update,
  and after \<^verbatim>\<open>bob\<close> has joined.
\<close>

definition alice_profile :: profile where
  "alice_profile = \<lparr>username = Some ''alice'', blessing = Some ''hello'',
                     photos = Some [''/uploads/photos/alice/1-7.png''], shortId = Some ''abc123''\<rparr>"

definition alice_db :: db where
  "alice_db = \<lparr>byUsername = [''alice'' \<mapsto> alice_profile], byShortId = [''abc123'' \<mapsto> ''alice'']\<rparr>"

definition alice_profile2 :: profile where
  "alice_profile2 = \<lparr>username = Some ''alice'', blessing = Some ''merry'',
                     photos = Some [''/uploads/photos/alice/1-7.png'', ''/uploads/photos/alice/2-9.jpg''],
                     shortId = Some ''abc123''\<rparr>"

definition alice_db2 :: db where
  "alice_db2 = \<lparr>byUsername = [''alice'' \<mapsto> alice_profile2], byShortId = [''abc123'' \<mapsto> ''alice'']\<rparr>"

definition both_db :: db where
  "both_db = \<lparr>byUsername = [''alice'' \<mapsto> alice_profile2,
                             ''bob'' \<mapsto> \<lparr>username = Some ''bob'', blessing = Some [],
                                          photos = Some [], shortId = Some ''123456''\<rparr>],
               byShortId = [''abc123'' \<mapsto> ''alice'', ''123456'' \<mapsto> ''bob'']\<rparr>"

text \<open>
  A store that holds a profile under the empty username, and the store an update
  of \<^verbatim>\<open>bob\<close> makes of it.
\<close>

definition stale_profile :: profile where
  "stale_profile = \<lparr>username = Some [], blessing = Some [], photos = Some [], shortId = Some ''abc123''\<rparr>"

definition stale_db :: db where
  "stale_db = \<lparr>byUsername = [[] \<mapsto> stale_profile], byShortId = [''abc123'' \<mapsto> []]\<rparr>"

definition bob_profile :: profile where
  "bob_profile = \<lparr>username = Some ''bob'', blessing = Some [], photos = Some [], shortId = Some ''abc123''\<rparr>"

definition stale_db_after :: db where
  "stale_db_after = \<lparr>byUsername = [[] \<mapsto> stale_profile, ''bob'' \<mapsto> bob_profile],
                      byShortId = [''abc123'' \<mapsto> ''bob'']\<rparr>"

text \<open>
  Two delete requests, and a store whose photo sequence holds two paths twice.
\<close>

definition delete_first :: delete_request where
  "delete_first = \<lparr>params_username = ''alice'', body_photoUrl = Some ''/uploads/photos/alice/1-7.png''\<rparr>"

definition delete_unknown :: delete_request where
  "delete_unknown = \<lparr>params_username = ''alice'', body_photoUrl = Some ''/uploads/photos/alice/0-0.png''\<rparr>"

definition twice_profile :: profile where
  "twice_profile = \<lparr>username = Some ''alice'', blessing = Some ''merry'',
                     photos = Some [''/uploads/photos/alice/2-9.jpg'', ''/uploads/photos/alice/1-7.png'',
                                    ''/uploads/photos/alice/2-9.jpg'', ''/uploads/photos/alice/1-7.png''],
                     shortId = Some ''abc123''\<rparr>"

definition twice_db :: db where
  "twice_db = \<lparr>byUsername = [''alice'' \<mapsto> twice_profile], byShortId = [''abc123'' \<mapsto> ''alice'']\<rparr>"

text \<open>
  An update request for the username \<^verbatim>\<open>__proto__\<close> with one image, and the store
  that it leaves on a service without a backing file.
\<close>

definition photo3 :: multer_file where
  "photo3 = \<lparr>fieldname = ''photos'', originalname = ''tree.png'', mimetype = Some ''image/png'',
             path = [''srv'', ''tree'', ''uploads'', ''photos'', ''__proto__'', ''5-5.png'']\<rparr>"

definition proto_request :: config_request where
  "proto_request = \<lparr>params_username = ''__proto__'', body_blessing = Some ''hello'',
                     files = Some [photo3]\<rparr>"

definition proto_db :: db where
  "proto_db = \<lparr>byUsername = Map.empty, byShortId = [''abc123'' \<mapsto> ''__proto__'']\<rparr>"






section \<open>Basic facts\<close>

text \<open>
  The generator returns the first six digits of the outcome, if it has that many.
\<close>

lemma generateShortId_eq: "generateShortId r = map digit36 (take 6 r)"
  by (cases r) (simp_all add: generateShortId_def toString36_def slice_def take_map)

lemma digit36_alnum: "digit36 d \<in> set base36_digits"
  unfolding digit36_def by (rule nth_mem) (simp add: base36_digits_def)

lemma generateShortId_bound:
  "length (generateShortId r) \<le> 6 \<and> set (generateShortId r) \<subseteq> set base36_digits"
  by (auto simp: generateShortId_eq digit36_alnum)

text \<open>
  \<open>indexOf\<close> finds the first occurrence, and \<open>- 1\<close> exactly when there is none.
\<close>

lemma indexOf_ge: "- 1 \<le> indexOf xs x"
  by (induction xs) (auto simp: Let_def)

lemma indexOf_absent: "(indexOf xs x = - 1) = (x \<notin> set xs)"
proof (induction xs)
  case Nil
  show ?case by simp
next
  case (Cons y ys)
  have "- 1 \<le> indexOf ys x" by (rule indexOf_ge)
  with Cons show ?case by (auto simp: Let_def)
qed




lemma push_all: "foldl (\<lambda>ps fl. ps @ [g fl]) xs fs = xs @ map g fs"
  by (induction fs arbitrary: xs) simp_all

lemma loadDb_total: "\<exists>d. loadDb f = Inr d"
  by (cases f; cases "the f") (auto simp: loadDb_def)

lemma loadDb_saveDb: "loadDb (saveDb d) = Inr d"
  by (simp add: loadDb_def saveDb_def JSON_stringify_def)

text \<open>
  The loop ends on the first outcome whose id has a falsy entry, and the id it returns
  has a falsy entry.
\<close>

lemma generate_loop_falsy: "generate_loop ids rs = Some sid \<Longrightarrow> \<not> truthy (ids sid)"
  by (induction rs) (auto simp: Let_def split: if_splits)

lemma generate_loop_returns:
  "r \<in> set rs \<Longrightarrow> \<not> truthy (ids (generateShortId r)) \<Longrightarrow> \<exists>sid. generate_loop ids rs = Some sid"
  by (induction rs) (auto simp: Let_def)

section \<open>The upload middleware\<close>

text \<open>
  The middleware passes a request on unchanged or ends it with an error that the error
  middleware answers with status 400.
\<close>

lemma upload_files_accepts:
  "upload_files n ps = Inr fs \<Longrightarrow> fs = ps"
proof (induction ps arbitrary: n fs)
  case Nil
  then show ?case by simp
next
  case (Cons p ps)
  then show ?case
    by (auto simp: fileFilter_def split: if_splits sum.splits)
qed

lemma upload_files_rejects:
  "p \<in> set ps \<Longrightarrow> fileFilter p = Inl e \<Longrightarrow>
     \<exists>e'. upload_files n ps = Inl e' \<and>
       (isMulterError e' \<or> message e' = ''Only image uploads are allowed'')"
proof (induction ps arbitrary: n)
  case Nil
  then show ?case by simp
next
  case (Cons q qs)
  show ?case
  proof (cases "fieldname q \<noteq> ''photos'' \<or> n = 0")
    case True
    then show ?thesis by simp
  next
    case False
    show ?thesis
    proof (cases "fileFilter q")
      case (Inl e1)
      then have "message e1 = ''Only image uploads are allowed''"
        by (auto simp: fileFilter_def split: if_splits)
      with False Inl show ?thesis by simp
    next
      case (Inr b)
      with Cons.prems have "p \<in> set qs" by auto
      from Cons.IH [OF this Cons.prems(2), of "n - 1"] obtain e' where
        "upload_files (n - 1) qs = Inl e'"
        "isMulterError e' \<or> message e' = ''Only image uploads are allowed''" by blast
      with False Inr show ?thesis by simp
    qed
  qed
qed

lemma upload_files_error:
  "upload_files n ps = Inl e \<Longrightarrow> isMulterError e \<or> message e = ''Only image uploads are allowed''"
  by (induction ps arbitrary: n) (auto simp: fileFilter_def split: if_splits sum.splits)

lemma upload_array_error:
  "upload_array req = Inl e \<Longrightarrow> error_middleware e =
     (400, JObject [(''error'', JString ''Only image uploads are allowed'')])"
  by (auto simp: upload_array_def error_middleware_def split: option.splits sum.splits
        dest: upload_files_error)

lemma upload_array_accepts: "upload_array req = Inr req' \<Longrightarrow> req' = req"
  by (auto simp: upload_array_def split: option.splits sum.splits dest: upload_files_accepts)

section \<open>The update route\<close>

lemma config_handler_unnamed:
  "normalized req = [] \<Longrightarrow>
     config_handler root req rs f =
       Some (Inr ((400, JObject [(''error'', JString ''Username is required'')]), f))"
  by (simp add: config_handler_def normalized_def)

lemma config_handler_named:
  assumes "normalized req \<noteq> []" and "loadDb f = Inr d"
  shows "config_handler root req rs f =
           (case chosen_shortId d (normalized req) rs of
              None \<Rightarrow> None
            | Some sid \<Rightarrow>
                Some (Inr ((200, ok_body (normalized req)
                                   (trim (case body_blessing req of None \<Rightarrow> [] | Some b \<Rightarrow> b))
                                   (prior_photos d (normalized req) @ map (urlPath root) (uploaded req)) sid),
                           saveDb (written d (normalized req)
                                   (trim (case body_blessing req of None \<Rightarrow> [] | Some b \<Rightarrow> b))
                                   (prior_photos d (normalized req) @ map (urlPath root) (uploaded req)) sid))))"
  using assms unfolding config_handler_def Let_def normalized_def [symmetric]
  by (auto simp: written_def ok_body_def prior_photos_def uploaded_def push_all emptyObject_def
        chosen_shortId_def prior_shortId_def truthy_def split: option.splits)

lemma post_config_named:
  assumes "upload_array req = Inr req" and "normalized req \<noteq> []" and "loadDb f = Inr d"
    and "chosen_shortId d (normalized req) rs = Some sid"
  shows "post_config root req rs f =
           Some ((200, ok_body (normalized req)
                         (trim (case body_blessing req of None \<Rightarrow> [] | Some b \<Rightarrow> b))
                         (prior_photos d (normalized req) @ map (urlPath root) (uploaded req)) sid),
                 saveDb (written d (normalized req)
                         (trim (case body_blessing req of None \<Rightarrow> [] | Some b \<Rightarrow> b))
                         (prior_photos d (normalized req) @ map (urlPath root) (uploaded req)) sid))"
  using assms(1,4) config_handler_named [OF assms(2,3), of root rs]
  by (simp add: post_config_def)

lemma post_config_cases:
  assumes "post_config root req rs f = Some (resp, f')" and "loadDb f = Inr d"
  obtains (rejected) "fst resp = 400" and "f' = f"
  | (saved) sid where "normalized req \<noteq> []"
      and "chosen_shortId d (normalized req) rs = Some sid"
      and "resp = (200, ok_body (normalized req)
                     (trim (case body_blessing req of None \<Rightarrow> [] | Some b \<Rightarrow> b))
                     (prior_photos d (normalized req) @ map (urlPath root) (uploaded req)) sid)"
      and "f' = saveDb (written d (normalized req)
                     (trim (case body_blessing req of None \<Rightarrow> [] | Some b \<Rightarrow> b))
                     (prior_photos d (normalized req) @ map (urlPath root) (uploaded req)) sid)"
proof (cases "upload_array req")
  case (Inl e)
  with assms(1) have "fst resp = 400 \<and> f' = f"
    by (auto simp: post_config_def upload_array_error [OF Inl])
  then show ?thesis using rejected by blast
next
  case (Inr req')
  then have req': "req' = req" by (rule upload_array_accepts)
  show ?thesis
  proof (cases "normalized req = []")
    case True
    from assms(1) Inr req' config_handler_unnamed [OF True, of root rs f]
    have "fst resp = 400 \<and> f' = f"
      by (auto simp: post_config_def)
    then show ?thesis using rejected by blast
  next
    case False
    from assms(1) Inr req' config_handler_named [OF False assms(2), of root rs]
    show ?thesis using saved [OF False]
      by (auto simp: post_config_def split: option.splits)
  qed
qed

lemma generate_loop_short: "generate_loop ids rs = Some sid \<Longrightarrow> length sid \<le> 6"
  by (induction rs) (auto simp: Let_def generateShortId_eq split: if_splits)

lemma chosen_shortId_cases:
  assumes "chosen_shortId d u rs = Some sid"
  obtains (kept) p where "byUsername d u = Some p" and "shortId p = Some sid" and "sid \<noteq> []"
  | (generated) "\<not> truthy (byShortId d sid)" and "length sid \<le> 6"
proof (cases "truthy (prior_shortId d u)")
  case True
  with assms have "prior_shortId d u = Some sid" by (simp add: chosen_shortId_def)
  with True kept show ?thesis
    by (auto simp: prior_shortId_def truthy_def split: option.splits)
next
  case False
  with assms have "generate_loop (byShortId d) rs = Some sid" by (simp add: chosen_shortId_def)
  from generate_loop_falsy [OF this] generate_loop_short [OF this] generated show ?thesis
    by blast
qed

text \<open>
  The route answers as soon as the randomness source yields one id whose entry is falsy.
\<close>

lemma post_config_returns:
  assumes "loadDb f = Inr d" and "r \<in> set rs"
    and "\<not> truthy (byShortId d (generateShortId r))"
  shows "\<exists>out. post_config root req rs f = Some out"
proof (cases "upload_array req")
  case (Inl e)
  then show ?thesis by (simp add: post_config_def)
next
  case (Inr req')
  then have req': "req' = req" by (rule upload_array_accepts)
  show ?thesis
  proof (cases "normalized req = []")
    case True
    with Inr req' config_handler_unnamed [OF True, of root rs f] show ?thesis
      by (simp add: post_config_def)
  next
    case False
    from generate_loop_returns [of r rs "byShortId d", OF assms(2,3)]
    have "\<exists>sid. chosen_shortId d (normalized req) rs = Some sid"
      by (cases "prior_shortId d (normalized req)") (auto simp: chosen_shortId_def truthy_def)
    then obtain sid where "chosen_shortId d (normalized req) rs = Some sid" by blast
    with Inr req' config_handler_named [OF False assms(1), of root rs] show ?thesis
      by (simp add: post_config_def)
  qed
qed

section \<open>The delete route\<close>


lemma delete_photo_cases:
  assumes "delete_photo root req f = (resp, f')" and "loadDb f = Inr d"
  obtains (unchanged) "f' = f"
  | (unlinked) "f' = None"
  | (removed) user ps' where "normalized req \<noteq> []"
      and "byUsername d (normalized req) = Some user"
      and "f' = saveDb (d\<lparr>byUsername := (byUsername d)(normalized req \<mapsto> user\<lparr>photos := Some ps'\<rparr>)\<rparr>)"
  using assms
  by (auto simp: delete_photo_def delete_handler_def Let_def normalized_def
        split: if_splits option.splits)

section \<open>Invariants of the store\<close>

text \<open>
  An update keeps the store consistent when the empty username holds no short id: a
  short id whose entry is falsy then belongs to no profile.
\<close>

lemma chosen_shortId_owner:
  assumes "consistent d" and "prior_shortId d [] = None"
    and "chosen_shortId d u rs = Some sid"
    and "byUsername d w = Some r" and "shortId r = Some sid"
  shows "w = u"
  using assms(3)
proof (cases rule: chosen_shortId_cases)
  case (kept p)
  with assms(1) have "byShortId d sid = Some u" by (simp add: consistent_def)
  moreover from assms(1,4,5) have "byShortId d sid = Some w" by (simp add: consistent_def)
  ultimately show ?thesis by simp
next
  case generated
  from assms(1,4,5) have "byShortId d sid = Some w" by (simp add: consistent_def)
  with generated(1) have "w = []" by (simp add: truthy_def)
  with assms(2,4,5) show ?thesis by (simp add: prior_shortId_def)
qed

lemma written_byShortId:
  assumes "consistent d" and "chosen_shortId d u rs = Some sid"
  shows "byShortId (written d u b ps sid) = (byShortId d)(sid \<mapsto> u)"
  using assms(2)
proof (cases rule: chosen_shortId_cases)
  case (kept p)
  with assms(1) have "byShortId d sid = Some u" by (simp add: consistent_def)
  then show ?thesis by (simp add: written_def js_assign_def)
next
  case generated
  then have "sid \<noteq> ''__proto__''" by auto
  then show ?thesis by (simp add: written_def js_assign_def)
qed

lemma written_consistent:
  assumes "consistent d" and "prior_shortId d [] = None"
    and "chosen_shortId d u rs = Some sid"
  shows "consistent (written d u b ps sid)"
  unfolding consistent_def
proof (intro allI impI)
  fix v q s
  assume q: "byUsername (written d u b ps sid) v = Some q" and s: "shortId q = Some s"
  note ids = written_byShortId [OF assms(1,3), of b ps]
  from q have "v = u \<and> shortId q = Some sid \<or> byUsername d v = Some q"
    by (auto simp: written_def js_assign_def split: if_splits)
  then show "byShortId (written d u b ps sid) s = Some v"
  proof
    assume "v = u \<and> shortId q = Some sid"
    with s ids show ?thesis by simp
  next
    assume old: "byUsername d v = Some q"
    with s assms(1) have entry: "byShortId d s = Some v" by (simp add: consistent_def)
    show ?thesis
    proof (cases "s = sid")
      case True
      with chosen_shortId_owner [OF assms old] s have "v = u" by simp
      with True ids show ?thesis by simp
    next
      case False
      with entry ids show ?thesis by simp
    qed
  qed
qed

lemma written_names_nonempty:
  "names_nonempty d \<Longrightarrow> u \<noteq> [] \<Longrightarrow> names_nonempty (written d u b ps sid)"
  by (auto simp: names_nonempty_def written_def js_assign_def)

lemma removed_consistent:
  assumes "consistent d" and "byUsername d u = Some user"
  shows "consistent (d\<lparr>byUsername := (byUsername d)(u \<mapsto> user\<lparr>photos := ps'\<rparr>)\<rparr>)"
  using assms unfolding consistent_def by (auto split: if_splits)

lemma removed_names_nonempty:
  assumes "names_nonempty d" and "u \<noteq> []"
  shows "names_nonempty (d\<lparr>byUsername := (byUsername d)(u \<mapsto> user')\<rparr>)"
  using assms by (auto simp: names_nonempty_def)

lemma reachable_invariant:
  "reachable f \<Longrightarrow> loadDb f = Inr d \<Longrightarrow> consistent d \<and> names_nonempty d"
proof (induction arbitrary: d rule: reachable.induct)
  case start
  then show ?case
    by (auto simp: loadDb_def emptyDb_def consistent_def names_nonempty_def)
next
  case (config f root req rs resp f')
  obtain d0 where d0: "loadDb f = Inr d0" using loadDb_total by blast
  from config.IH [OF d0] have inv: "consistent d0" "names_nonempty d0" by simp_all
  from config.hyps(2) d0 show ?case
  proof (cases rule: post_config_cases)
    case rejected
    with config.prems d0 inv show ?thesis by simp
  next
    case (saved sid)
    from saved(4) config.prems have d: "d = written d0 (normalized req)
        (trim (case body_blessing req of None \<Rightarrow> [] | Some b \<Rightarrow> b))
        (prior_photos d0 (normalized req) @ map (urlPath root) (uploaded req)) sid"
      by (simp add: loadDb_saveDb)
    from inv(2) have "prior_shortId d0 [] = None"
      by (simp add: names_nonempty_def prior_shortId_def)
    from written_consistent [OF inv(1) this saved(2)] written_names_nonempty [OF inv(2) saved(1)]
    show ?thesis unfolding d by blast
  qed
next
  case (delete f root dreq resp f')
  obtain d0 where d0: "loadDb f = Inr d0" using loadDb_total by blast
  from delete.IH [OF d0] have inv: "consistent d0" "names_nonempty d0" by simp_all
  from delete.hyps(2) d0 show ?case
  proof (cases rule: delete_photo_cases)
    case unchanged
    with delete.prems d0 inv show ?thesis by simp
  next
    case unlinked
    with delete.prems show ?thesis
      by (auto simp: loadDb_def emptyDb_def consistent_def names_nonempty_def)
  next
    case (removed user ps')
    from removed(3) delete.prems have d: "d = d0\<lparr>byUsername := (byUsername d0)(normalized dreq \<mapsto> user\<lparr>photos := Some ps'\<rparr>)\<rparr>"
      by (simp add: loadDb_saveDb)
    from removed_consistent [OF inv(1) removed(2)] removed_names_nonempty [OF inv(2) removed(1)]
    show ?thesis unfolding d by blast
  qed
qed

section \<open>The examples, evaluated\<close>

lemma normalized_examples:
  "normalized first_request = ''alice''" "normalized second_request = ''alice''"
  "normalized bad_request = ''alice''" "normalized bob_request = ''bob''"
  by (simp_all add: normalized_def first_request_def second_request_def bad_request_def
        bob_request_def toLowerCase_def trim_def isWhiteSpace_def lowerChar_def)

lemma urlPath_examples:
  "urlPath root0 photo1 = ''/uploads/photos/alice/1-7.png''"
  "urlPath root0 photo2 = ''/uploads/photos/alice/2-9.jpg''"
  by (simp_all add: urlPath_def root0_def photo1_def photo2_def)

lemma upload_array_examples:
  "upload_array first_request = Inr first_request"
  "upload_array second_request = Inr second_request"
  "upload_array bob_request = Inr bob_request"
  by (simp_all add: upload_array_def first_request_def second_request_def bob_request_def
        fileFilter_def startsWith_def photo1_def photo2_def)

lemma blessing_examples:
  "trim (case body_blessing first_request of None \<Rightarrow> [] | Some b \<Rightarrow> b) = ''hello''"
  "trim (case body_blessing second_request of None \<Rightarrow> [] | Some b \<Rightarrow> b) = ''merry''"
  "trim (case body_blessing bob_request of None \<Rightarrow> [] | Some b \<Rightarrow> b) = []"
  by (simp_all add: first_request_def second_request_def bob_request_def trim_def isWhiteSpace_def)

lemma uploaded_examples:
  "map (urlPath root0) (uploaded first_request) = [''/uploads/photos/alice/1-7.png'']"
  "map (urlPath root0) (uploaded second_request) = [''/uploads/photos/alice/2-9.jpg'']"
  "map (urlPath root0) (uploaded bob_request) = []"
  by (simp_all add: uploaded_def first_request_def second_request_def bob_request_def
        urlPath_examples)

lemma prior_photos_examples:
  "prior_photos emptyDb ''alice'' = []"
  "prior_photos alice_db ''alice'' = [''/uploads/photos/alice/1-7.png'']"
  "prior_photos alice_db ''bob'' = []"
  by (simp_all add: prior_photos_def emptyDb_def alice_db_def alice_profile_def)

lemma stored_examples:
  "byUsername alice_db ''alice'' = Some alice_profile"
  "byUsername alice_db2 ''alice'' = Some alice_profile2"
  "byUsername twice_db ''alice'' = Some twice_profile"
  by (simp_all add: alice_db_def alice_db2_def twice_db_def)

lemma normalized_deletes:
  "normalized delete_first = ''alice''" "normalized delete_unknown = ''alice''"
  by (simp_all add: normalized_def delete_first_def delete_unknown_def toLowerCase_def trim_def
        isWhiteSpace_def lowerChar_def)

lemma photoUrl_examples:
  "body_photoUrl delete_first = Some ''/uploads/photos/alice/1-7.png''"
  "body_photoUrl delete_unknown = Some ''/uploads/photos/alice/0-0.png''"
  by (simp_all add: delete_first_def delete_unknown_def)

text \<open>
  The first update is the scenario of the specification: username \<^verbatim>\<open>"Alice "\<close>,
  blessing \<^verbatim>\<open>"hello"\<close> and one image, on a service without a backing file.
  In the third, the first id generated is taken and the loop generates a second one.
\<close>

lemma first_update:
  "post_config root0 first_request [[10, 11, 12, 1, 2, 3]] None =
     Some ((200, ok_body ''alice'' ''hello'' [''/uploads/photos/alice/1-7.png''] ''abc123''),
           saveDb alice_db)"
proof -
  have load: "loadDb None = Inr emptyDb" by (simp add: loadDb_def)
  have name: "normalized first_request \<noteq> []" by (simp add: normalized_examples)
  have sid: "chosen_shortId emptyDb (normalized first_request) [[10, 11, 12, 1, 2, 3]] = Some ''abc123''"
    by (simp add: chosen_shortId_def prior_shortId_def emptyDb_def truthy_def generateShortId_eq
          digit36_def base36_digits_def)
  have "written emptyDb ''alice'' ''hello'' [''/uploads/photos/alice/1-7.png''] ''abc123'' = alice_db"
    by (simp add: written_def js_assign_def emptyDb_def alice_db_def alice_profile_def)
  with post_config_named [OF upload_array_examples(1) name load sid, of root0]
  show ?thesis
    by (simp add: normalized_examples blessing_examples uploaded_examples prior_photos_examples)
qed

lemma second_update:
  "post_config root0 second_request rs (saveDb alice_db) =
     Some ((200, ok_body ''alice'' ''merry''
                   [''/uploads/photos/alice/1-7.png'', ''/uploads/photos/alice/2-9.jpg''] ''abc123''),
           saveDb alice_db2)"
proof -
  have name: "normalized second_request \<noteq> []" by (simp add: normalized_examples)
  have sid: "chosen_shortId alice_db (normalized second_request) rs = Some ''abc123''"
    by (simp add: chosen_shortId_def prior_shortId_def alice_db_def alice_profile_def truthy_def
          normalized_examples)
  have "written alice_db ''alice'' ''merry''
          [''/uploads/photos/alice/1-7.png'', ''/uploads/photos/alice/2-9.jpg''] ''abc123'' = alice_db2"
    by (simp add: written_def js_assign_def alice_db_def alice_db2_def alice_profile2_def)
  with post_config_named [OF upload_array_examples(2) name loadDb_saveDb sid, of root0]
  show ?thesis
    by (simp add: normalized_examples blessing_examples uploaded_examples prior_photos_examples)
qed

lemma third_update:
  "post_config root0 bob_request [[10, 11, 12, 1, 2, 3], [1, 2, 3, 4, 5, 6]] (saveDb alice_db2) =
     Some ((200, ok_body ''bob'' [] [] ''123456''), saveDb both_db)"
proof -
  have name: "normalized bob_request \<noteq> []" by (simp add: normalized_examples)
  have sid: "chosen_shortId alice_db2 (normalized bob_request)
               [[10, 11, 12, 1, 2, 3], [1, 2, 3, 4, 5, 6]] = Some ''123456''"
    by (simp add: chosen_shortId_def prior_shortId_def alice_db2_def truthy_def generateShortId_eq
          digit36_def base36_digits_def normalized_examples)
  have pp: "prior_photos alice_db2 ''bob'' = []"
    by (simp add: prior_photos_def alice_db2_def)
  have w: "written alice_db2 ''bob'' [] [] ''123456'' = both_db"
    by (simp add: written_def js_assign_def alice_db2_def both_db_def)
  from post_config_named [OF upload_array_examples(3) name loadDb_saveDb sid, of root0]
  show ?thesis
    by (simp add: normalized_examples blessing_examples uploaded_examples pp w)
qed

lemma reachable_alice: "reachable (saveDb alice_db)"
  using reachable.config [OF reachable.start first_update] .

lemma reachable_alice2: "reachable (saveDb alice_db2)"
  using reachable.config [OF reachable_alice second_update] .

lemma reachable_both: "reachable (saveDb both_db)"
  using reachable.config [OF reachable_alice2 third_update] .

lemma consistent_alice: "consistent alice_db"
  by (auto simp: consistent_def alice_db_def alice_profile_def split: if_splits)

section \<open>Loading the store\<close>

text \<open>
  C8: Loading the store fails open. When the backing file is missing or its contents
  do not parse, \<open>loadDb\<close> returns the empty store
  \<^verbatim>\<open>{byUsername: {}, byShortId: {}}\<close> and raises nothing (the result is \<open>Inr\<close>).
\<close>

theorem loadDb_fails_open:
  "f = None \<or> (\<exists>s. f = Some (Garbage s)) \<Longrightarrow>
     loadDb f = Inr \<lparr>byUsername = Map.empty, byShortId = Map.empty\<rparr>"
  by (auto simp: loadDb_def emptyDb_def)

theorem loadDb_fails_open_witness:
  "loadDb None = Inr \<lparr>byUsername = Map.empty, byShortId = Map.empty\<rparr> \<and>
   loadDb (Some (Garbage ''{oops'')) = Inr \<lparr>byUsername = Map.empty, byShortId = Map.empty\<rparr>"
  using loadDb_fails_open [of None] loadDb_fails_open [of "Some (Garbage ''{oops'')"]
  by simp

section \<open>The generator\<close>

text \<open>
  C2: Every short id produced by the generator is a lowercase alphanumeric token of
  exactly 6 characters, for every outcome of the randomness source. The generator does
  not bear this out: for the outcome 0.5, which \<^verbatim>\<open>toString(36)\<close> prints as
  \<^verbatim>\<open>0.i\<close>, \<^verbatim>\<open>slice(2, 8)\<close> returns the one-character id \<^verbatim>\<open>i\<close>.
  (\<open>generateShortId_bound\<close> above is what holds of every outcome: at most 6
  characters, each a digit or a lowercase letter.)
\<close>

theorem generateShortId_half:
  "toString36 [18] = ''0.i'' \<and> generateShortId [18] = ''i'' \<and> length (generateShortId [18]) = 1"
  by (simp add: generateShortId_def toString36_def slice_def digit36_def base36_digits_def)

section \<open>Uploads that are not images\<close>

text \<open>
  C3: For every update request that contains at least one file whose declared content
  type does not begin with \<^verbatim>\<open>image/\<close>, the whole request fails with status 400
  and body \<^verbatim>\<open>{error: "Only image uploads are allowed"}\<close>, and the backing file is
  left as it was, so no photo path is appended to any photo sequence in the store.
\<close>

theorem non_image_upload_rejected:
  assumes "files req = Some parts" and "p \<in> set parts"
    and "mimetype p = Some m" and "\<not> startsWith m ''image/''"
  shows "post_config root req rs f =
           Some ((400, JObject [(''error'', JString ''Only image uploads are allowed'')]), f)"
proof -
  from assms(3,4) have "fileFilter p = Inl (Error ''Only image uploads are allowed'')"
    by (simp add: fileFilter_def)
  from upload_files_rejects [OF assms(2) this, of 20] obtain e' where
    e': "upload_files 20 parts = Inl e'"
      "isMulterError e' \<or> message e' = ''Only image uploads are allowed''" by blast
  from e'(1) assms(1) have "upload_array req = Inl e'"
    by (simp add: upload_array_def)
  with e'(2) show ?thesis
    by (simp add: post_config_def error_middleware_def)
qed

theorem non_image_upload_rejected_witness:
  "files bad_request = Some [photo2, note1] \<and> note1 \<in> set [photo2, note1] \<and>
   mimetype note1 = Some ''text/plain'' \<and> \<not> startsWith ''text/plain'' ''image/'' \<and>
   post_config root0 bad_request [] (saveDb alice_db) =
     Some ((400, JObject [(''error'', JString ''Only image uploads are allowed'')]), saveDb alice_db)"
proof -
  have h: "files bad_request = Some [photo2, note1]" "note1 \<in> set [photo2, note1]"
    "mimetype note1 = Some ''text/plain''" "\<not> startsWith ''text/plain'' ''image/''"
    by (simp_all add: bad_request_def note1_def startsWith_def)
  from non_image_upload_rejected [OF h] h show ?thesis by simp
qed

section \<open>Photos are appended\<close>

text \<open>
  On every successful update request (status 200) the response carries the prior photo
  sequence of the profile, in its original order, followed by the URL paths of the newly
  uploaded files. The store written holds a profile with the same sequence, unless the
  username is \<^verbatim>\<open>__proto__\<close> and the store has no such own key: then the assignment
  of line 138 stores nothing and \<^verbatim>\<open>byUsername\<close> is as it was.
\<close>

lemma photos_in_response:
  assumes "post_config root req rs f = Some ((200, body), f')" and "loadDb f = Inr d"
  shows "json_field body ''photos'' =
           Some (JArray (map JString (prior_photos d (normalized req) @ map (urlPath root) (uploaded req))))"
  using assms
proof (cases rule: post_config_cases)
  case rejected
  then show ?thesis by simp
next
  case (saved sid)
  then show ?thesis by (simp add: ok_body_def)
qed

lemma photos_in_store:
  assumes "post_config root req rs f = Some ((200, body), f')" and "loadDb f = Inr d"
  shows "\<exists>d'. loadDb f' = Inr d' \<and>
           (if normalized req = ''__proto__'' \<and> byUsername d ''__proto__'' = None
            then byUsername d' = byUsername d
            else \<exists>p'. byUsername d' (normalized req) = Some p' \<and>
                   photos p' = Some (prior_photos d (normalized req) @ map (urlPath root) (uploaded req)))"
  using assms
proof (cases rule: post_config_cases)
  case rejected
  then show ?thesis by simp
next
  case (saved sid)
  then show ?thesis by (auto simp: loadDb_saveDb written_def js_assign_def)
qed

text \<open>
  C4: For every successful update request, the resulting profile's photo sequence equals
  the prior profile's photo sequence followed by the URL paths of the newly uploaded
  files. The code does not bear this out for \<^verbatim>\<open>POST /api/config/__proto__\<close>: the
  request with one image is answered with status 200 and the photo sequence of one path,
  but the store written holds no profile under this username, so no photo sequence
  results.
\<close>

theorem proto_update_not_stored:
  "post_config root0 proto_request [[10, 11, 12, 1, 2, 3]] None =
     Some ((200, ok_body ''__proto__'' ''hello'' [''/uploads/photos/__proto__/5-5.png''] ''abc123''),
           saveDb proto_db) \<and>
   json_field (ok_body ''__proto__'' ''hello'' [''/uploads/photos/__proto__/5-5.png''] ''abc123'')
     ''photos'' = Some (JArray [JString ''/uploads/photos/__proto__/5-5.png'']) \<and>
   loadDb (saveDb proto_db) = Inr proto_db \<and>
   byUsername proto_db ''__proto__'' = None"
proof -
  have load: "loadDb None = Inr emptyDb" by (simp add: loadDb_def)
  have norm: "normalized proto_request = ''__proto__''"
    by (simp add: normalized_def proto_request_def toLowerCase_def trim_def isWhiteSpace_def
          lowerChar_def)
  have name: "normalized proto_request \<noteq> []" by (simp add: norm)
  have up: "upload_array proto_request = Inr proto_request"
    by (simp add: upload_array_def proto_request_def fileFilter_def startsWith_def photo3_def)
  have sid: "chosen_shortId emptyDb (normalized proto_request) [[10, 11, 12, 1, 2, 3]] = Some ''abc123''"
    by (simp add: chosen_shortId_def prior_shortId_def emptyDb_def truthy_def generateShortId_eq
          digit36_def base36_digits_def)
  have bless: "trim (case body_blessing proto_request of None \<Rightarrow> [] | Some b \<Rightarrow> b) = ''hello''"
    by (simp add: proto_request_def trim_def isWhiteSpace_def)
  have new: "map (urlPath root0) (uploaded proto_request) = [''/uploads/photos/__proto__/5-5.png'']"
    by (simp add: uploaded_def proto_request_def urlPath_def root0_def photo3_def)
  have prior: "prior_photos emptyDb ''__proto__'' = []"
    by (simp add: prior_photos_def emptyDb_def)
  have w: "written emptyDb ''__proto__'' ''hello'' [''/uploads/photos/__proto__/5-5.png''] ''abc123'' =
             proto_db"
    by (simp add: written_def js_assign_def emptyDb_def proto_db_def)
  from post_config_named [OF up name load sid, of root0]
  have run: "post_config root0 proto_request [[10, 11, 12, 1, 2, 3]] None =
     Some ((200, ok_body ''__proto__'' ''hello'' [''/uploads/photos/__proto__/5-5.png''] ''abc123''),
           saveDb proto_db)"
    by (simp add: norm bless new prior w)
  have "byUsername proto_db ''__proto__'' = None" by (simp add: proto_db_def)
  with run show ?thesis by (simp add: ok_body_def loadDb_saveDb)
qed

section \<open>An existing short id is kept\<close>



section \<open>Short ids are unique\<close>

text \<open>
  C1: Short ids are unique. In every store state reachable through the API, no two
  profiles hold the same non-empty short id, and an id that the generation loop of the
  update endpoint produces is not a key of \<^verbatim>\<open>byShortId\<close> at that time.
\<close>

theorem shortIds_unique_reachable:
  assumes "reachable f" and "loadDb f = Inr d"
  shows "unique_shortIds d \<and>
         (\<forall>rs sid. generate_loop (byShortId d) rs = Some sid \<longrightarrow> sid \<notin> dom (byShortId d))"
proof -
  from reachable_invariant [OF assms] have inv: "consistent d" "names_nonempty d" by simp_all
  from inv(1) have "unique_shortIds d"
    unfolding consistent_def unique_shortIds_def by (metis option.inject)
  moreover have "sid \<notin> dom (byShortId d)" if "generate_loop (byShortId d) rs = Some sid" for rs sid
    using generate_loop_falsy [OF that] inv(2)
    by (auto simp: truthy_def names_nonempty_def split: option.splits)
  ultimately show ?thesis by blast
qed

theorem shortIds_unique_reachable_witness:
  "reachable (saveDb both_db) \<and> loadDb (saveDb both_db) = Inr both_db \<and>
   unique_shortIds both_db \<and>
   generate_loop (byShortId both_db) [[10, 11, 12, 1, 2, 3], [1, 2, 3, 4, 5, 6], [7, 8, 9, 7, 8, 9]] =
     Some ''789789'' \<and>
   ''789789'' \<notin> dom (byShortId both_db)"
proof -
  have run: "generate_loop (byShortId both_db)
               [[10, 11, 12, 1, 2, 3], [1, 2, 3, 4, 5, 6], [7, 8, 9, 7, 8, 9]] = Some ''789789''"
    by (simp add: both_db_def generateShortId_eq digit36_def base36_digits_def truthy_def)
  from shortIds_unique_reachable [OF reachable_both loadDb_saveDb]
  have unique: "unique_shortIds both_db"
    and unused: "\<forall>rs sid. generate_loop (byShortId both_db) rs = Some sid \<longrightarrow>
                   sid \<notin> dom (byShortId both_db)"
    by blast+
  from unused run have "''789789'' \<notin> dom (byShortId both_db)" by blast
  with unique run reachable_both loadDb_saveDb show ?thesis by blast
qed

section \<open>Bidirectional consistency\<close>

text \<open>
  C9, as stated: bidirectional consistency is preserved by the update operation,
  starting from any store satisfying it. This fails for a store that holds a profile
  under the empty username: the entry of its short id is the empty string, which the
  loop takes for a free id (\<^verbatim>\<open>while (byShortId[shortId])\<close>), so the update of
  another user takes the id over.
\<close>

theorem consistency_broken:
  "consistent stale_db \<and>
   post_config root0 bob_request [[10, 11, 12, 1, 2, 3]] (saveDb stale_db) =
     Some ((200, ok_body ''bob'' [] [] ''abc123''), saveDb stale_db_after) \<and>
   \<not> consistent stale_db_after"
proof -
  have c: "consistent stale_db"
    by (auto simp: consistent_def stale_db_def stale_profile_def split: if_splits)
  have name: "normalized bob_request \<noteq> []" by (simp add: normalized_examples)
  have sid: "chosen_shortId stale_db (normalized bob_request) [[10, 11, 12, 1, 2, 3]] = Some ''abc123''"
    by (simp add: chosen_shortId_def prior_shortId_def stale_db_def truthy_def generateShortId_eq
          digit36_def base36_digits_def normalized_examples)
  have pp: "prior_photos stale_db ''bob'' = []"
    by (simp add: prior_photos_def stale_db_def)
  have w: "written stale_db ''bob'' [] [] ''abc123'' = stale_db_after"
    by (simp add: written_def js_assign_def stale_db_def stale_db_after_def bob_profile_def)
  from post_config_named [OF upload_array_examples(3) name loadDb_saveDb sid, of root0]
  have run: "post_config root0 bob_request [[10, 11, 12, 1, 2, 3]] (saveDb stale_db) =
     Some ((200, ok_body ''bob'' [] [] ''abc123''), saveDb stale_db_after)"
    by (simp add: normalized_examples blessing_examples uploaded_examples pp w)
  have "byUsername stale_db_after [] = Some stale_profile \<and> shortId stale_profile = Some ''abc123'' \<and>
        byShortId stale_db_after ''abc123'' \<noteq> Some []"
    by (simp add: stale_db_after_def stale_profile_def)
  then have "\<not> consistent stale_db_after"
    unfolding consistent_def by blast
  with c run show ?thesis by simp
qed

text \<open>
  C9, amended: starting from any consistent store in which the empty username holds no
  short id (the update endpoint never stores a profile under the empty username), the
  store after an update request is consistent: every profile with a short id has the
  entry in \<^verbatim>\<open>byShortId\<close> that maps this short id back to the profile's username.
\<close>

theorem consistency_preserved:
  assumes "consistent d" and "prior_shortId d [] = None" and "loadDb f = Inr d"
    and "post_config root req rs f = Some (resp, f')" and "loadDb f' = Inr d'"
  shows "consistent d'"
  using assms(4,3)
proof (cases rule: post_config_cases)
  case rejected
  with assms show ?thesis by simp
next
  case (saved sid)
  from saved(4) assms(5) have "d' = written d (normalized req)
        (trim (case body_blessing req of None \<Rightarrow> [] | Some b \<Rightarrow> b))
        (prior_photos d (normalized req) @ map (urlPath root) (uploaded req)) sid"
    by (simp add: loadDb_saveDb)
  with written_consistent [OF assms(1,2) saved(2)] show ?thesis by simp
qed

theorem consistency_preserved_witness:
  "consistent alice_db \<and> prior_shortId alice_db [] = None \<and>
   loadDb (saveDb alice_db) = Inr alice_db \<and>
   post_config root0 second_request [] (saveDb alice_db) =
     Some ((200, ok_body ''alice'' ''merry''
                   [''/uploads/photos/alice/1-7.png'', ''/uploads/photos/alice/2-9.jpg''] ''abc123''),
           saveDb alice_db2) \<and>
   loadDb (saveDb alice_db2) = Inr alice_db2 \<and>
   consistent alice_db2"
proof -
  have none: "prior_shortId alice_db [] = None"
    by (simp add: prior_shortId_def alice_db_def)
  from consistency_preserved [OF consistent_alice none loadDb_saveDb second_update loadDb_saveDb]
    consistent_alice none show ?thesis
    by (simp add: second_update loadDb_saveDb)
qed

section \<open>Deleting a photo\<close>









text \<open>
  C6: For every user whose photo sequence does not contain the requested path, the
  delete-photo operation answers with status 404 and body
  \<^verbatim>\<open>{ok: false, error: "Photo not found in user data"}\<close>, and the backing file,
  hence the photo sequence and the whole store, is left as it was.
\<close>

theorem delete_absent_photo:
  assumes "normalized req \<noteq> []" and "body_photoUrl req = Some url" and "url \<noteq> []"
    and "loadDb f = Inr d" and "byUsername d (normalized req) = Some user"
    and "photos user = Some ps" and "url \<notin> set ps"
  shows "delete_photo root req f =
           ((404, JObject [(''ok'', JBool False), (''error'', JString ''Photo not found in user data'')]), f)"
proof -
  from assms(7) have "indexOf ps url = - 1" by (simp add: indexOf_absent)
  with assms(1-6) show ?thesis
    unfolding delete_photo_def delete_handler_def Let_def normalized_def [symmetric]
    by (simp add: truthy_def)
qed

theorem delete_absent_photo_witness:
  "normalized delete_unknown \<noteq> [] \<and>
   body_photoUrl delete_unknown = Some ''/uploads/photos/alice/0-0.png'' \<and>
   ''/uploads/photos/alice/0-0.png'' \<noteq> [] \<and>
   loadDb (saveDb alice_db2) = Inr alice_db2 \<and>
   byUsername alice_db2 (normalized delete_unknown) = Some alice_profile2 \<and>
   photos alice_profile2 = Some [''/uploads/photos/alice/1-7.png'', ''/uploads/photos/alice/2-9.jpg''] \<and>
   ''/uploads/photos/alice/0-0.png'' \<notin> set [''/uploads/photos/alice/1-7.png'', ''/uploads/photos/alice/2-9.jpg''] \<and>
   delete_photo root0 delete_unknown (saveDb alice_db2) =
     ((404, JObject [(''ok'', JBool False), (''error'', JString ''Photo not found in user data'')]),
      saveDb alice_db2)"
proof -
  have h: "normalized delete_unknown \<noteq> []"
    "body_photoUrl delete_unknown = Some ''/uploads/photos/alice/0-0.png''"
    "''/uploads/photos/alice/0-0.png'' \<noteq> []"
    "loadDb (saveDb alice_db2) = Inr alice_db2"
    "byUsername alice_db2 (normalized delete_unknown) = Some alice_profile2"
    "photos alice_profile2 = Some [''/uploads/photos/alice/1-7.png'', ''/uploads/photos/alice/2-9.jpg'']"
    "''/uploads/photos/alice/0-0.png'' \<notin> set [''/uploads/photos/alice/1-7.png'', ''/uploads/photos/alice/2-9.jpg'']"
    by (simp_all add: normalized_deletes photoUrl_examples loadDb_saveDb stored_examples
          alice_profile2_def)
  from delete_absent_photo [OF h, of root0] h show ?thesis by simp
qed

end
